theory Spec2Isabelle
  imports Complex_Main
begin

section \<open>Search suggestions: the three-tier fallback of \<open>backend/routes/search.py\<close>\<close>

text \<open>
  The module has three coroutines: \<open>_google_autocomplete\<close>, \<open>_llm_suggestions\<close> and the
  route handler \<open>get_search_suggestions\<close>. They are embedded below as functions that take
  the behaviour of the two remote services as an argument and thread the trace of
  observable effects (outbound requests and log records) through every call.
  A leading underscore is not an Isabelle identifier, so the two helpers are named
  \<open>google_autocomplete\<close> and \<open>llm_suggestions\<close>.
\<close>

subsection \<open>Python values\<close>

text \<open>
  A Python \<open>str\<close> is a sequence of Unicode code points and \<open>len\<close> counts code points, so a
  string is a list of code points here. \<open>str\<close> writes an ASCII literal of the source.
\<close>

type_synonym pystr = "nat list"

definition str :: "string \<Rightarrow> pystr" where
  "str s = map of_char s"

text \<open>
  \<open>str.isspace\<close> for one code point: the table of CPython's \<open>_PyUnicode_IsWhitespace\<close>.
\<close>

definition isspace :: "nat \<Rightarrow> bool" where
  "isspace c \<longleftrightarrow>
     (9 \<le> c \<and> c \<le> 13) \<or> (28 \<le> c \<and> c \<le> 32) \<or> c = 133 \<or> c = 160 \<or> c = 5760 \<or>
     (8192 \<le> c \<and> c \<le> 8202) \<or> c = 8232 \<or> c = 8233 \<or> c = 8239 \<or> c = 8287 \<or> c = 12288"

text \<open>\<open>s.strip()\<close>: leading and trailing whitespace removed.\<close>

definition strip :: "pystr \<Rightarrow> pystr" where
  "strip s = rev (dropWhile isspace (rev (dropWhile isspace s)))"

text \<open>\<open>s.startswith(c)\<close> for a one-character \<open>c\<close>.\<close>

definition startswith :: "'a list \<Rightarrow> 'a \<Rightarrow> bool" where
  "startswith s c = (case s of [] \<Rightarrow> False | x # _ \<Rightarrow> x = c)"

text \<open>
  \<open>s.find(c)\<close> and \<open>s.rfind(c)\<close> for a one-character \<open>c\<close>: the index of the first (last)
  occurrence, \<open>-1\<close> when there is none.
\<close>

fun str_find :: "'a list \<Rightarrow> 'a \<Rightarrow> int" where
  "str_find [] c = - 1"
| "str_find (x # xs) c =
     (if x = c then 0 else (let r = str_find xs c in if r < 0 then - 1 else r + 1))"

definition str_rfind :: "'a list \<Rightarrow> 'a \<Rightarrow> int" where
  "str_rfind s c = (let r = str_find (rev s) c in if r < 0 then - 1 else int (length s) - 1 - r)"

text \<open>
  Slices. Python maps a negative bound \<open>i\<close> to \<open>len + i\<close> and then clamps every bound into
  \<open>[0, len]\<close>; \<open>xs[a:b]\<close> is empty when the clamped \<open>a\<close> is not below the clamped \<open>b\<close>.
\<close>

definition slice_bound :: "nat \<Rightarrow> int \<Rightarrow> nat" where
  "slice_bound n i = (if i < 0 then nat (int n + i) else min n (nat i))"

definition slice_to :: "'a list \<Rightarrow> int \<Rightarrow> 'a list" where
  "slice_to xs b = take (slice_bound (length xs) b) xs"

definition slice :: "'a list \<Rightarrow> int \<Rightarrow> int \<Rightarrow> 'a list" where
  "slice xs a b = drop (slice_bound (length xs) a) (take (slice_bound (length xs) b) xs)"

text \<open>
  What \<open>json.loads\<close> and \<open>Response.json\<close> return. The code only asks whether a value is
  a \<open>list\<close> or a \<open>str\<close>; the other shapes are kept so that every decoded body is a value
  of the type.
\<close>

datatype pyfloat = Finite rat | PosInf | NegInf | NaN

datatype json =
    JNull
  | JBool bool
  | JInt int
  | JFloat pyfloat
  | is_JStr: JStr (un_JStr: pystr)
  | JArr "json list"
  | JObj "(pystr \<times> json) list"

subsection \<open>The environment: exceptions, remote services, effects\<close>

text \<open>
  What a call can raise, by what the handlers of the route tell apart. Both handlers are
  \<open>except Exception\<close>:
  \<^item> \<open>Exception m\<close> is an instance of the class \<open>Exception\<close> (or of a subclass: the errors of
    the HTTP client and of the chat client, \<open>IndexError\<close>, \<open>JSONDecodeError\<close>); the handlers
    catch it. The text is \<open>str(e)\<close>, which they log.
  \<^item> \<open>BaseException m\<close> is an instance of \<open>BaseException\<close> outside the class \<open>Exception\<close>
    (\<open>asyncio.CancelledError\<close> raised into an awaited call when the request's task is
    cancelled, \<open>KeyboardInterrupt\<close>, \<open>SystemExit\<close>); no handler of the module catches it.
\<close>

datatype exn = is_Exception: Exception pystr | BaseException pystr

datatype 'a outcome = Raises exn | Returns 'a

text \<open>
  \<^item> \<open>suggest_get q\<close>: the outcome of \<open>client.get(url, params={"client": "chrome", "q": q})\<close>,
    \<open>r.raise_for_status()\<close> and \<open>r.json()\<close> together: any of the three raising (network
    error, timeout, non-2xx status, malformed body) is \<open>Raises\<close>; otherwise the decoded body.
  \<^item> \<open>chat_create q limit\<close>: the outcome of \<open>_llm_client.chat.completions.create\<close> for the
    prompt built from \<open>limit\<close> and \<open>q\<close>: it raises, or returns a response, of which the
    code reads \<open>choices\<close> and of each choice \<open>message.content\<close> (a \<open>str\<close> or \<open>None\<close>).
    A response on which these attribute reads raise counts as \<open>Raises\<close>.
  \<^item> \<open>loads\<close>: \<open>json.loads\<close>; \<open>None\<close> when it raises (a \<open>ValueError\<close> or another
    \<open>Exception\<close>: it awaits nothing, so no cancellation arrives in it).
\<close>

record env =
  suggest_get :: "pystr \<Rightarrow> json outcome"
  chat_create :: "pystr \<Rightarrow> int \<Rightarrow> pystr option list outcome"
  loads :: "pystr \<Rightarrow> json option"

datatype event =
    HttpGet pystr
  | ChatCreate pystr int
  | LogWarning pystr
  | LogError pystr

text \<open>The response model: \<open>class SuggestionsResponse(BaseModel)\<close>.\<close>

record SuggestionsResponse =
  suggestions :: "pystr list"
  query :: pystr

subsection \<open>\<open>_google_autocomplete\<close>\<close>

definition google_autocomplete ::
  "env \<Rightarrow> pystr \<Rightarrow> int \<Rightarrow> event list \<Rightarrow> (exn + pystr list) \<times> event list" where
  "google_autocomplete e q limit tr =
     (case suggest_get e q of
        Raises x \<Rightarrow> (Inl x, tr @ [HttpGet q])
      | Returns data \<Rightarrow>
          (case data of
             JArr (d0 # JArr d1 # rest) \<Rightarrow>
               (let items = [s. JStr s \<leftarrow> d1] in (Inr (slice_to items limit), tr @ [HttpGet q]))
           | _ \<Rightarrow> (Inr [], tr @ [HttpGet q])))"

subsection \<open>\<open>_llm_suggestions\<close>\<close>

text \<open>
  Lines 83 to 88, the \<open>if\<close>/\<open>else\<close> that binds \<open>arr\<close>; \<open>None\<close> when \<open>json.loads\<close> raises
  (the surrounding \<open>try\<close> catches it). The code point of \<open>[\<close> is 91, that of \<open>]\<close> is 93.
\<close>

definition parse_arr :: "env \<Rightarrow> pystr \<Rightarrow> json option" where
  "parse_arr e content =
     (if startswith content 91 then loads e content
      else
        (let start = str_find content 91;
             end' = str_rfind content 93 + 1
         in if start \<ge> 0 \<and> end' > start then loads e (slice content start end')
            else Some (JArr [])))"

text \<open>The list of the last statement (lines 96 to 102), before its \<open>[:limit]\<close>.\<close>

definition last_resort :: "pystr \<Rightarrow> pystr list" where
  "last_resort q =
     [q @ str '' tutorial'',
      q @ str '' example'',
      q @ str '' documentation'',
      str ''how to '' @ q,
      q @ str '' guide'']"

text \<open>
  \<open>response.choices[0]\<close> raises \<open>IndexError\<close> on an empty list, outside the \<open>try\<close> of this
  function. \<open>message.content or ""\<close> turns \<open>None\<close> into the empty string.
\<close>

definition llm_suggestions ::
  "env \<Rightarrow> pystr \<Rightarrow> int \<Rightarrow> event list \<Rightarrow> (exn + pystr list) \<times> event list" where
  "llm_suggestions e q limit tr =
     (case chat_create e q limit of
        Raises x \<Rightarrow> (Inl x, tr @ [ChatCreate q limit])
      | Returns choices \<Rightarrow>
          (case choices of
             [] \<Rightarrow> (Inl (Exception (str ''list index out of range'')), tr @ [ChatCreate q limit])
           | c0 # _ \<Rightarrow>
               (let content = strip (case c0 of None \<Rightarrow> [] | Some s \<Rightarrow> s) in
                (Inr
                  (case parse_arr e content of
                     Some (JArr arr) \<Rightarrow> slice_to [s. JStr s \<leftarrow> arr] limit
                   | _ \<Rightarrow> slice_to (last_resort q) limit),
                 tr @ [ChatCreate q limit]))))"

subsection \<open>\<open>get_search_suggestions\<close>\<close>

text \<open>The local variable \<open>fallback\<close> (lines 137 to 143).\<close>

definition fallback :: "pystr \<Rightarrow> pystr list" where
  "fallback q =
     [q @ str '' tutorial'',
      q @ str '' example'',
      q @ str '' documentation'',
      str ''how to '' @ q,
      q @ str '' guide'']"

text \<open>
  \<open>limit\<close> is an \<open>int\<close> already (the route's parameter type), so \<open>int(limit)\<close> returns it.
  Each \<open>except Exception\<close> logs one record and lets control go on to the next step; what
  it does not catch leaves the route at once, with nothing logged.
\<close>

definition get_search_suggestions ::
  "env \<Rightarrow> pystr \<Rightarrow> int \<Rightarrow> event list \<Rightarrow> (exn + SuggestionsResponse) \<times> event list" where
  "get_search_suggestions e q0 limit0 tr =
     (if q0 = [] \<or> length (strip q0) < 2
      then (Inr \<lparr>suggestions = [], query = q0\<rparr>, tr)
      else
        (let q = strip q0;
             limit = max 1 (min limit0 10)
         in
           (case google_autocomplete e q limit tr of
              (Inr (s # ss), tr1) \<Rightarrow>
                (Inr \<lparr>suggestions = slice_to (s # ss) limit, query = q\<rparr>, tr1)
            | (Inl (BaseException m), tr1) \<Rightarrow> (Inl (BaseException m), tr1)
            | (r1, tr1) \<Rightarrow>
                (let tr2 =
                   (case r1 of
                      Inl (Exception m) \<Rightarrow>
                        tr1 @ [LogWarning (str ''Google suggest failed (fallback to LLM): '' @ m)]
                    | _ \<Rightarrow> tr1)
                 in
                   (case llm_suggestions e q limit tr2 of
                      (Inr sugg, tr3) \<Rightarrow>
                        (Inr \<lparr>suggestions = slice_to sugg limit, query = q\<rparr>, tr3)
                    | (Inl (Exception m), tr3) \<Rightarrow>
                        (Inr \<lparr>suggestions = slice_to (fallback q) limit, query = q\<rparr>,
                         tr3 @ [LogError (str ''LLM suggestions failed: '' @ m)])
                    | (Inl (BaseException m), tr3) \<Rightarrow> (Inl (BaseException m), tr3))))))"

text \<open>
  An outcome that the handlers can deal with: a return, or an exception of class
  \<open>Exception\<close>.
\<close>

definition raises_only_Exception :: "'a outcome \<Rightarrow> bool" where
  "raises_only_Exception out = (case out of Raises x \<Rightarrow> is_Exception x | Returns v \<Rightarrow> True)"

subsection \<open>Scenarios\<close>

text \<open>
  An environment whose two services behave the same way for every request:
  the suggest service's outcome, the chat service's outcome, and \<open>json.loads\<close>.
\<close>

definition services ::
  "json outcome \<Rightarrow> pystr option list outcome \<Rightarrow> (pystr \<Rightarrow> json option) \<Rightarrow> env" where
  "services g c p = \<lparr>suggest_get = (\<lambda>q. g), chat_create = (\<lambda>q limit. c), loads = p\<rparr>"

section \<open>Properties\<close>

subsection \<open>Slices, string elements and traces\<close>

lemma slice_to_nonneg: "0 \<le> n \<Longrightarrow> slice_to xs n = take (nat n) xs"
  by (simp add: slice_to_def slice_bound_def min_def)

lemma length_slice_to: "0 \<le> n \<Longrightarrow> int (length (slice_to xs n)) \<le> n"
  by (simp add: slice_to_nonneg)

lemma slice_to_idem: "0 \<le> n \<Longrightarrow> slice_to (slice_to xs n) n = slice_to xs n"
  by (simp add: slice_to_nonneg)

lemma str_elems: "[s. JStr s \<leftarrow> xs] = map un_JStr (filter is_JStr xs)"
  by (induction xs) (auto split: json.splits)

lemma google_autocomplete_trace: "snd (google_autocomplete e q limit tr) = tr @ [HttpGet q]"
  by (simp add: google_autocomplete_def Let_def split: outcome.splits json.splits list.splits)

lemma google_autocomplete_result:
  "fst (google_autocomplete e q limit tr) = fst (google_autocomplete e q limit [])"
  by (simp add: google_autocomplete_def Let_def split: outcome.splits json.splits list.splits)

lemma llm_suggestions_trace: "snd (llm_suggestions e q limit tr) = tr @ [ChatCreate q limit]"
  by (simp add: llm_suggestions_def Let_def split: outcome.splits list.splits)

lemma llm_suggestions_result:
  "fst (llm_suggestions e q limit tr) = fst (llm_suggestions e q limit [])"
  by (simp add: llm_suggestions_def Let_def split: outcome.splits list.splits)

subsection \<open>The route in terms of its steps\<close>

lemma strip_nonempty: "2 \<le> length (strip q0) \<Longrightarrow> q0 \<noteq> []"
  by (auto simp: strip_def)

lemma google_autocomplete_eq:
  "google_autocomplete e q limit tr = (fst (google_autocomplete e q limit []), tr @ [HttpGet q])"
  using google_autocomplete_result[of e q limit tr] google_autocomplete_trace[of e q limit tr]
  by (simp add: prod_eq_iff)

lemma llm_suggestions_eq:
  "llm_suggestions e q limit tr = (fst (llm_suggestions e q limit []), tr @ [ChatCreate q limit])"
  using llm_suggestions_result[of e q limit tr] llm_suggestions_trace[of e q limit tr]
  by (simp add: prod_eq_iff)

text \<open>
  The route by what its first step returns, for a query that is long enough: a non-empty
  list, an exception no handler catches, or anything else followed by the LLM step.
\<close>

lemma resolver_google_some:
  assumes "2 \<le> length (strip q0)"
    and "fst (google_autocomplete e (strip q0) (max 1 (min limit0 10)) []) = Inr (s # ss)"
  shows "get_search_suggestions e q0 limit0 tr =
    (Inr \<lparr>suggestions = slice_to (s # ss) (max 1 (min limit0 10)), query = strip q0\<rparr>,
     tr @ [HttpGet (strip q0)])"
proof -
  have ne: "q0 \<noteq> []" using assms(1) by (rule strip_nonempty)
  have nl: "\<not> length (strip q0) < 2" using assms(1) by simp
  have g: "google_autocomplete e (strip q0) (max 1 (min limit0 10)) tr =
      (Inr (s # ss), tr @ [HttpGet (strip q0)])"
    using google_autocomplete_eq[of e "strip q0" "max 1 (min limit0 10)" tr] assms(2) by simp
  show ?thesis
    unfolding get_search_suggestions_def Let_def using ne nl g by simp
qed

lemma resolver_google_escapes:
  assumes "2 \<le> length (strip q0)"
    and "fst (google_autocomplete e (strip q0) (max 1 (min limit0 10)) []) = Inl (BaseException m)"
  shows "get_search_suggestions e q0 limit0 tr =
    (Inl (BaseException m), tr @ [HttpGet (strip q0)])"
proof -
  have ne: "q0 \<noteq> []" using assms(1) by (rule strip_nonempty)
  have nl: "\<not> length (strip q0) < 2" using assms(1) by simp
  have g: "google_autocomplete e (strip q0) (max 1 (min limit0 10)) tr =
      (Inl (BaseException m), tr @ [HttpGet (strip q0)])"
    using google_autocomplete_eq[of e "strip q0" "max 1 (min limit0 10)" tr] assms(2) by simp
  show ?thesis
    unfolding get_search_suggestions_def Let_def using ne nl g by simp
qed

lemma resolver_llm:
  assumes "2 \<le> length (strip q0)"
    and "fst (google_autocomplete e (strip q0) (max 1 (min limit0 10)) []) = r1"
    and "r1 = Inr [] \<or> (\<exists>m. r1 = Inl (Exception m))"
  shows "get_search_suggestions e q0 limit0 tr =
    (case fst (llm_suggestions e (strip q0) (max 1 (min limit0 10)) []) of
       Inr sugg \<Rightarrow>
         (Inr \<lparr>suggestions = slice_to sugg (max 1 (min limit0 10)), query = strip q0\<rparr>,
          tr @ [HttpGet (strip q0)] @
          (case r1 of
             Inl (Exception m) \<Rightarrow>
               [LogWarning (str ''Google suggest failed (fallback to LLM): '' @ m)]
           | _ \<Rightarrow> []) @
          [ChatCreate (strip q0) (max 1 (min limit0 10))])
     | Inl (Exception m2) \<Rightarrow>
         (Inr \<lparr>suggestions = slice_to (fallback (strip q0)) (max 1 (min limit0 10)),
               query = strip q0\<rparr>,
          tr @ [HttpGet (strip q0)] @
          (case r1 of
             Inl (Exception m) \<Rightarrow>
               [LogWarning (str ''Google suggest failed (fallback to LLM): '' @ m)]
           | _ \<Rightarrow> []) @
          [ChatCreate (strip q0) (max 1 (min limit0 10)),
           LogError (str ''LLM suggestions failed: '' @ m2)])
     | Inl (BaseException m2) \<Rightarrow>
         (Inl (BaseException m2),
          tr @ [HttpGet (strip q0)] @
          (case r1 of
             Inl (Exception m) \<Rightarrow>
               [LogWarning (str ''Google suggest failed (fallback to LLM): '' @ m)]
           | _ \<Rightarrow> []) @
          [ChatCreate (strip q0) (max 1 (min limit0 10))]))"
proof -
  let ?q = "strip q0" and ?L = "max 1 (min limit0 10)"
  have ne: "q0 \<noteq> []" using assms(1) by (rule strip_nonempty)
  have nl: "\<not> length (strip q0) < 2" using assms(1) by simp
  have g: "google_autocomplete e ?q ?L tr = (r1, tr @ [HttpGet ?q])"
    using google_autocomplete_eq[of e ?q ?L tr] assms(2) by simp
  obtain r2 where r2: "fst (llm_suggestions e ?q ?L []) = r2" by simp
  have l: "llm_suggestions e ?q ?L t = (r2, t @ [ChatCreate ?q ?L])" for t
    using llm_suggestions_eq[of e ?q ?L t] r2 by simp
  consider (ok) sugg where "r2 = Inr sugg" | (caught) m2 where "r2 = Inl (Exception m2)"
    | (escapes) m2 where "r2 = Inl (BaseException m2)"
  proof (cases r2)
    case (Inl x)
    then show ?thesis using caught escapes by (cases x) auto
  next
    case (Inr sugg)
    then show ?thesis using ok by simp
  qed
  then show ?thesis
  proof cases
    case ok
    from assms(3) show ?thesis
      unfolding get_search_suggestions_def Let_def r2
      by (auto simp: ne nl g l ok)
  next
    case caught
    from assms(3) show ?thesis
      unfolding get_search_suggestions_def Let_def r2
      by (auto simp: ne nl g l caught)
  next
    case escapes
    from assms(3) show ?thesis
      unfolding get_search_suggestions_def Let_def r2
      by (auto simp: ne nl g l escapes)
  qed
qed

lemma google_result_cases:
  obtains (some) s ss where "r1 = Inr (s # ss)"
  | (escapes) m where "r1 = Inl (BaseException m)"
  | (goes_on) "r1 = Inr [] \<or> (\<exists>m. r1 = Inl (Exception m))"
proof (cases r1)
  case (Inl x)
  then show ?thesis using escapes goes_on by (cases x) auto
next
  case (Inr xs)
  then show ?thesis using some goes_on by (cases xs) auto
qed

lemma resolver_steps:
  assumes "2 \<le> length (strip q0)"
  shows "get_search_suggestions e q0 limit0 tr =
    (case fst (google_autocomplete e (strip q0) (max 1 (min limit0 10)) []) of
       Inr (s # ss) \<Rightarrow>
         (Inr \<lparr>suggestions = slice_to (s # ss) (max 1 (min limit0 10)), query = strip q0\<rparr>,
          tr @ [HttpGet (strip q0)])
     | Inl (BaseException m) \<Rightarrow> (Inl (BaseException m), tr @ [HttpGet (strip q0)])
     | r1 \<Rightarrow>
        (case fst (llm_suggestions e (strip q0) (max 1 (min limit0 10)) []) of
           Inr sugg \<Rightarrow>
             (Inr \<lparr>suggestions = slice_to sugg (max 1 (min limit0 10)), query = strip q0\<rparr>,
              tr @ [HttpGet (strip q0)] @
              (case r1 of
                 Inl (Exception m) \<Rightarrow>
                   [LogWarning (str ''Google suggest failed (fallback to LLM): '' @ m)]
               | _ \<Rightarrow> []) @
              [ChatCreate (strip q0) (max 1 (min limit0 10))])
         | Inl (Exception m2) \<Rightarrow>
             (Inr \<lparr>suggestions = slice_to (fallback (strip q0)) (max 1 (min limit0 10)),
                   query = strip q0\<rparr>,
              tr @ [HttpGet (strip q0)] @
              (case r1 of
                 Inl (Exception m) \<Rightarrow>
                   [LogWarning (str ''Google suggest failed (fallback to LLM): '' @ m)]
               | _ \<Rightarrow> []) @
              [ChatCreate (strip q0) (max 1 (min limit0 10)),
               LogError (str ''LLM suggestions failed: '' @ m2)])
         | Inl (BaseException m2) \<Rightarrow>
             (Inl (BaseException m2),
              tr @ [HttpGet (strip q0)] @
              (case r1 of
                 Inl (Exception m) \<Rightarrow>
                   [LogWarning (str ''Google suggest failed (fallback to LLM): '' @ m)]
               | _ \<Rightarrow> []) @
              [ChatCreate (strip q0) (max 1 (min limit0 10))])))"
proof -
  obtain r1 where r1: "fst (google_autocomplete e (strip q0) (max 1 (min limit0 10)) []) = r1"
    by simp
  show ?thesis
  proof (cases r1 rule: google_result_cases)
    case (some s ss)
    show ?thesis
      using resolver_google_some[OF assms r1[unfolded some], of tr]
      by (simp add: r1 some)
  next
    case (escapes m)
    show ?thesis
      using resolver_google_escapes[OF assms r1[unfolded escapes], of tr]
      by (simp add: r1 escapes)
  next
    case goes_on
    show ?thesis
      using resolver_llm[OF assms r1 goes_on, of tr] goes_on
      by (auto simp: r1)
  qed
qed

lemma clamp_idem: "max 1 (min (max 1 (min limit 10)) 10) = max (1::int) (min limit 10)"
  by simp

lemma resolver_sliced:
  assumes "fst (get_search_suggestions e q limit tr) = Inr r"
  shows "\<exists>xs. suggestions r = slice_to xs (max 1 (min limit 10))"
proof (cases "2 \<le> length (strip q)")
  case True
  show ?thesis
    using assms unfolding resolver_steps[OF True]
    by (auto split: sum.splits list.splits exn.splits)
next
  case False
  then have "suggestions r = slice_to [] (max 1 (min limit 10))"
    using assms by (auto simp: get_search_suggestions_def slice_to_def)
  then show ?thesis by blast
qed

lemma resolver_trace:
  assumes "2 \<le> length (strip q)"
  shows "set (snd (get_search_suggestions e q limit tr)) \<subseteq>
     set tr \<union> {HttpGet (strip q), ChatCreate (strip q) (max 1 (min limit 10))} \<union>
     range LogWarning \<union> range LogError"
  by (subst resolver_steps[OF assms]) (auto split: sum.splits list.splits exn.splits)

subsection \<open>What each step returns\<close>

lemma str_find_first: "c \<notin> set pre \<Longrightarrow> str_find (pre @ c # rest) c = int (length pre)"
  by (induction pre) (auto simp: Let_def)

lemma str_rfind_last: "c \<notin> set post \<Longrightarrow> str_rfind (xs @ c # post) c = int (length xs)"
  using str_find_first[of c "rev post" "rev xs"] by (simp add: str_rfind_def Let_def)

lemma slice_middle:
  "slice (pre @ ys @ post) (int (length pre)) (int (length pre + length ys)) = ys"
  by (simp add: slice_def slice_bound_def)

lemma parse_arr_bracketed:
  assumes "pre \<noteq> []" "91 \<notin> set pre" "93 \<notin> set post"
  shows "parse_arr e (pre @ 91 # mid @ 93 # post) = loads e (91 # mid @ [93])"
proof -
  let ?s = "pre @ 91 # mid @ 93 # post"
  have ns: "\<not> startswith ?s 91"
    using assms(1,2) by (cases pre) (auto simp: startswith_def)
  have f: "str_find ?s 91 = int (length pre)"
    using assms(2) by (rule str_find_first)
  have "str_rfind ((pre @ 91 # mid) @ 93 # post) 93 = int (length (pre @ 91 # mid))"
    using assms(3) by (rule str_rfind_last)
  then have r: "str_rfind ?s 93 = int (length pre + length mid + 1)"
    by simp
  have "slice (pre @ (91 # mid @ [93]) @ post) (int (length pre))
          (int (length pre + length (91 # mid @ [93]))) = 91 # mid @ [93]"
    by (rule slice_middle)
  then have sl: "slice ?s (int (length pre)) (int (length pre + length mid + 1) + 1) = 91 # mid @ [93]"
    by (simp add: add.commute add.left_commute)
  show ?thesis
    unfolding parse_arr_def Let_def by (simp only: ns f r sl if_False) simp
qed

lemma llm_suggestions_parsed:
  assumes "0 \<le> limit" "chat_create e q limit = Returns (c # cs)"
    and "parse_arr e (strip (case c of None \<Rightarrow> [] | Some s \<Rightarrow> s)) = Some (JArr arr)"
  shows "fst (llm_suggestions e q limit tr) =
     Inr (take (nat limit) (map un_JStr (filter is_JStr arr)))"
  using assms by (simp add: llm_suggestions_def Let_def slice_to_nonneg str_elems)

lemma google_autocomplete_raises:
  "suggest_get e q = Raises x \<Longrightarrow> fst (google_autocomplete e q limit tr) = Inl x"
  by (simp add: google_autocomplete_def)

lemma google_autocomplete_Inl:
  "fst (google_autocomplete e q limit tr) = Inl x \<Longrightarrow> suggest_get e q = Raises x"
  by (auto simp: google_autocomplete_def Let_def split: outcome.splits json.splits list.splits)

lemma google_autocomplete_items:
  "0 \<le> limit \<Longrightarrow> suggest_get e q = Returns (JArr (d0 # JArr d1 # rest)) \<Longrightarrow>
   fst (google_autocomplete e q limit tr) = Inr (take (nat limit) (map un_JStr (filter is_JStr d1)))"
  by (simp add: google_autocomplete_def Let_def slice_to_nonneg str_elems)

lemma llm_suggestions_raises:
  "chat_create e q limit = Raises (Exception m) \<or> chat_create e q limit = Returns [] \<Longrightarrow>
   \<exists>z. fst (llm_suggestions e q limit tr) = Inl (Exception z)"
  by (auto simp: llm_suggestions_def)

lemma llm_suggestions_Inl:
  "fst (llm_suggestions e q limit tr) = Inl x \<Longrightarrow>
   chat_create e q limit = Raises x \<or> is_Exception x"
  by (auto simp: llm_suggestions_def Let_def split: outcome.splits list.splits)

lemma google_autocomplete_same_source:
  "suggest_get e1 q = suggest_get e2 q \<Longrightarrow>
   fst (google_autocomplete e1 q limit tr) = fst (google_autocomplete e2 q limit tr)"
  by (simp add: google_autocomplete_def)

lemma llm_suggestions_parse_failure:
  assumes "chat_create e q limit = Returns (c # cs)"
    and "parse_arr e (strip (case c of None \<Rightarrow> [] | Some s \<Rightarrow> s)) = None"
  shows "fst (llm_suggestions e q limit tr) = Inr (slice_to (last_resort q) limit)"
  using assms by (simp add: llm_suggestions_def Let_def)

subsection \<open>What leaves the route\<close>

lemma resolver_escapes:
  assumes "fst (get_search_suggestions e q limit tr) = Inl x"
  shows "\<not> is_Exception x \<and>
     (suggest_get e (strip q) = Raises x \<or>
      chat_create e (strip q) (max 1 (min limit 10)) = Raises x)"
proof (cases "2 \<le> length (strip q)")
  case True
  let ?L = "max 1 (min limit 10)"
  obtain r1 where r1: "fst (google_autocomplete e (strip q) ?L []) = r1" by simp
  show ?thesis
  proof (cases r1 rule: google_result_cases)
    case (some s ss)
    then show ?thesis
      using assms resolver_google_some[OF True r1[unfolded some], of tr] by simp
  next
    case (escapes m)
    then have "x = BaseException m"
      using assms resolver_google_escapes[OF True r1[unfolded escapes], of tr] by simp
    then show ?thesis
      using google_autocomplete_Inl[OF r1[unfolded escapes]] by simp
  next
    case goes_on
    obtain r2 where r2: "fst (llm_suggestions e (strip q) ?L []) = r2" by simp
    have "r2 = Inl x \<and> \<not> is_Exception x"
      using assms unfolding resolver_llm[OF True r1 goes_on, of tr] r2
      by (auto split: sum.splits exn.splits)
    then show ?thesis
      using llm_suggestions_Inl[of e "strip q" ?L "[]" x] r2 by auto
  qed
next
  case False
  then show ?thesis
    using assms by (simp add: get_search_suggestions_def)
qed

lemma resolver_returns:
  assumes "raises_only_Exception (suggest_get e (strip q))"
    and "raises_only_Exception (chat_create e (strip q) (max 1 (min limit 10)))"
  shows "\<exists>r. fst (get_search_suggestions e q limit tr) = Inr r"
proof (cases "fst (get_search_suggestions e q limit tr)")
  case (Inl x)
  from resolver_escapes[OF Inl] assms show ?thesis
    by (auto simp: raises_only_Exception_def)
next
  case (Inr r)
  then show ?thesis by blast
qed

text \<open>The definitions a concrete run unfolds.\<close>

lemmas run =
  get_search_suggestions_def google_autocomplete_def llm_suggestions_def parse_arr_def
  services_def fallback_def last_resort_def str_def strip_def isspace_def startswith_def
  str_rfind_def slice_def slice_to_def slice_bound_def raises_only_Exception_def Let_def

subsection \<open>The claims\<close>




text \<open>
  C2, as amended. The claim bounds the length of the returned list by the caller's
  \<open>limit\<close>; the route clamps the limit first, so the bound that holds for every query and
  every limit is the effective limit \<open>max(1, min(limit, 10))\<close>, and the caller's own value
  bounds the list whenever it is at least 1. It holds of every response the route returns,
  and the route returns one whenever the two calls raise nothing outside class \<open>Exception\<close>.
\<close>

theorem suggestions_length_le_effective_limit:
  "(\<forall>r. fst (get_search_suggestions e q limit tr) = Inr r \<longrightarrow>
      int (length (suggestions r)) \<le> max 1 (min limit 10) \<and>
      (1 \<le> limit \<longrightarrow> int (length (suggestions r)) \<le> limit)) \<and>
   (raises_only_Exception (suggest_get e (strip q)) \<and>
    raises_only_Exception (chat_create e (strip q) (max 1 (min limit 10))) \<longrightarrow>
      (\<exists>r. fst (get_search_suggestions e q limit tr) = Inr r \<and>
         int (length (suggestions r)) \<le> max 1 (min limit 10) \<and>
         (1 \<le> limit \<longrightarrow> int (length (suggestions r)) \<le> limit)))"
proof -
  have bound: "int (length (suggestions r)) \<le> max 1 (min limit 10) \<and>
      (1 \<le> limit \<longrightarrow> int (length (suggestions r)) \<le> limit)"
    if r: "fst (get_search_suggestions e q limit tr) = Inr r" for r
  proof -
    obtain xs where xs: "suggestions r = slice_to xs (max 1 (min limit 10))"
      using resolver_sliced[OF r] by blast
    have "int (length (slice_to xs (max 1 (min limit 10)))) \<le> max 1 (min limit 10)"
      by (rule length_slice_to) simp
    then show ?thesis using xs by auto
  qed
  show ?thesis
    using bound resolver_returns[of e q limit tr] by blast
qed

text \<open>
  The bound at a limit of 3, with both services down: the three entries of the static list.
\<close>

theorem suggestions_length_le_effective_limit_witness:
  "(1::int) \<le> 3 \<and>
   int (length (suggestions (projr (fst (get_search_suggestions
          (services (Raises (Exception (str ''timeout''))) (Raises (Exception (str ''no credits'')))
             Map.empty)
          (str ''fish'') 3 []))))) \<le> 3"
proof -
  let ?e = "services (Raises (Exception (str ''timeout''))) (Raises (Exception (str ''no credits'')))
             Map.empty"
  have h1: "raises_only_Exception (suggest_get ?e (strip (str ''fish'')))"
    and h2: "raises_only_Exception (chat_create ?e (strip (str ''fish'')) (max 1 (min 3 10)))"
    by (simp_all add: services_def raises_only_Exception_def)
  obtain r where "fst (get_search_suggestions ?e (str ''fish'') 3 []) = Inr r"
    and "1 \<le> (3::int) \<longrightarrow> int (length (suggestions r)) \<le> 3"
    using conjunct2[OF suggestions_length_le_effective_limit[of ?e "str ''fish''" 3 "[]"]] h1 h2
    by blast
  then show ?thesis by simp
qed

text \<open>
  The claim as stated fails at a limit of 0 (which the claim includes: a limit outside
  \<open>[1, 10]\<close>). With both services down the query \<open>fish\<close> gets one suggestion, and 1 is
  not at most 0.
\<close>

theorem suggestions_length_exceeds_limit_zero:
  "fst (get_search_suggestions
          (services (Raises (Exception (str ''timeout''))) (Raises (Exception (str ''no credits'')))
             Map.empty)
          (str ''fish'') 0 []) =
     Inr \<lparr>suggestions = [str ''fish tutorial''], query = str ''fish''\<rparr> \<and>
   \<not> int (length (suggestions (projr (fst (get_search_suggestions
          (services (Raises (Exception (str ''timeout''))) (Raises (Exception (str ''no credits'')))
             Map.empty)
          (str ''fish'') 0 []))))) \<le> 0"
  by (simp add: run)

text \<open>
  C3. A query whose trimmed length is below 2 gets the empty list paired with the query as
  it was passed (untrimmed), and the trace is returned as it came: no request went to the
  suggest service or to the chat service and nothing was logged. The empty list is not what
  either static list gives at the effective limit.
\<close>

theorem short_query_bypasses_sources:
  "length (strip q) < 2 \<Longrightarrow>
     get_search_suggestions e q limit tr = (Inr \<lparr>suggestions = [], query = q\<rparr>, tr) \<and>
     [] \<noteq> slice_to (fallback (strip q)) (max 1 (min limit 10)) \<and>
     [] \<noteq> slice_to (last_resort (strip q)) (max 1 (min limit 10))"
  by (simp add: get_search_suggestions_def slice_to_nonneg fallback_def last_resort_def)

text \<open>
  The query \<open>" a "\<close>, with services that would have answered.
\<close>

theorem short_query_bypasses_sources_witness:
  "length (strip (str '' a '')) < 2 \<and>
   get_search_suggestions
     (services (Returns (JArr [JStr (str ''a''), JArr [JStr (str ''apple'')]]))
        (Returns [Some (str ''[]'')]) Map.empty)
     (str '' a '') 5 [] =
   (Inr \<lparr>suggestions = [], query = str '' a ''\<rparr>, [])"
proof -
  have h: "length (strip (str '' a '')) < 2"
    by (simp add: str_def strip_def isspace_def)
  from short_query_bypasses_sources[OF h] show ?thesis using h by simp
qed

text \<open>
  C4. For a query of trimmed length at least 2 the caller's limit acts only through
  \<open>max(1, min(limit, 10))\<close>: the response is what the two steps return when called with the
  trimmed query and the clamped value, truncated at the clamped value (the static list
  too); the route returns what it returns for the clamped value; every request to the chat
  service carries the clamped value; and the list of every response returned is its own
  truncation to it (a response is returned whenever the two calls raise nothing outside
  class \<open>Exception\<close>). Holds for every limit, so for those outside \<open>[1, 10]\<close>.
\<close>

theorem effective_limit_is_clamp:
  "2 \<le> length (strip q) \<Longrightarrow>
     fst (get_search_suggestions e q limit tr) =
       (case fst (google_autocomplete e (strip q) (max 1 (min limit 10)) tr) of
          Inr (s # ss) \<Rightarrow>
            Inr \<lparr>suggestions = slice_to (s # ss) (max 1 (min limit 10)), query = strip q\<rparr>
        | Inl (BaseException m) \<Rightarrow> Inl (BaseException m)
        | _ \<Rightarrow>
           (case fst (llm_suggestions e (strip q) (max 1 (min limit 10)) tr') of
              Inr sugg \<Rightarrow>
                Inr \<lparr>suggestions = slice_to sugg (max 1 (min limit 10)), query = strip q\<rparr>
            | Inl (Exception m) \<Rightarrow>
                Inr \<lparr>suggestions = slice_to (fallback (strip q)) (max 1 (min limit 10)),
                     query = strip q\<rparr>
            | Inl (BaseException m) \<Rightarrow> Inl (BaseException m))) \<and>
     get_search_suggestions e q limit tr =
       get_search_suggestions e q (max 1 (min limit 10)) tr \<and>
     (\<forall>q' l. ChatCreate q' l \<in> set (snd (get_search_suggestions e q limit [])) \<longrightarrow>
        q' = strip q \<and> l = max 1 (min limit 10)) \<and>
     (\<forall>r. fst (get_search_suggestions e q limit tr) = Inr r \<longrightarrow>
        suggestions r = slice_to (suggestions r) (max 1 (min limit 10))) \<and>
     (raises_only_Exception (suggest_get e (strip q)) \<and>
      raises_only_Exception (chat_create e (strip q) (max 1 (min limit 10))) \<longrightarrow>
        (\<exists>r. fst (get_search_suggestions e q limit tr) = Inr r \<and>
           suggestions r = slice_to (suggestions r) (max 1 (min limit 10))))"
proof -
  assume q: "2 \<le> length (strip q)"
  have g: "fst (google_autocomplete e (strip q) (max 1 (min limit 10)) tr) =
           fst (google_autocomplete e (strip q) (max 1 (min limit 10)) [])"
    by (rule google_autocomplete_result)
  have l: "fst (llm_suggestions e (strip q) (max 1 (min limit 10)) tr') =
           fst (llm_suggestions e (strip q) (max 1 (min limit 10)) [])"
    by (rule llm_suggestions_result)
  have c1: "fst (get_search_suggestions e q limit tr) =
       (case fst (google_autocomplete e (strip q) (max 1 (min limit 10)) tr) of
          Inr (s # ss) \<Rightarrow>
            Inr \<lparr>suggestions = slice_to (s # ss) (max 1 (min limit 10)), query = strip q\<rparr>
        | Inl (BaseException m) \<Rightarrow> Inl (BaseException m)
        | _ \<Rightarrow>
           (case fst (llm_suggestions e (strip q) (max 1 (min limit 10)) tr') of
              Inr sugg \<Rightarrow>
                Inr \<lparr>suggestions = slice_to sugg (max 1 (min limit 10)), query = strip q\<rparr>
            | Inl (Exception m) \<Rightarrow>
                Inr \<lparr>suggestions = slice_to (fallback (strip q)) (max 1 (min limit 10)),
                     query = strip q\<rparr>
            | Inl (BaseException m) \<Rightarrow> Inl (BaseException m)))"
    unfolding g l
    by (subst resolver_steps[OF q]) (auto split: sum.splits list.splits exn.splits)
  have c2: "get_search_suggestions e q limit tr =
       get_search_suggestions e q (max 1 (min limit 10)) tr"
    by (simp only: resolver_steps[OF q] clamp_idem)
  have c3: "q' = strip q \<and> l = max 1 (min limit 10)"
    if "ChatCreate q' l \<in> set (snd (get_search_suggestions e q limit []))" for q' l
    using that resolver_trace[OF q, of e limit "[]"] by auto
  have c4: "suggestions r = slice_to (suggestions r) (max 1 (min limit 10))"
    if r: "fst (get_search_suggestions e q limit tr) = Inr r" for r
  proof -
    obtain xs where xs: "suggestions r = slice_to xs (max 1 (min limit 10))"
      using resolver_sliced[OF r] by blast
    have "slice_to (slice_to xs (max 1 (min limit 10))) (max 1 (min limit 10)) =
          slice_to xs (max 1 (min limit 10))"
      by (rule slice_to_idem) simp
    then show ?thesis using xs by simp
  qed
  have c5: "\<exists>r. fst (get_search_suggestions e q limit tr) = Inr r \<and>
           suggestions r = slice_to (suggestions r) (max 1 (min limit 10))"
    if "raises_only_Exception (suggest_get e (strip q)) \<and>
        raises_only_Exception (chat_create e (strip q) (max 1 (min limit 10)))"
    using that resolver_returns[of e q limit tr] c4 by blast
  from c1 c2 c3 c4 c5 show ?thesis
    by (intro conjI allI impI) blast+
qed

text \<open>
  A limit of 50 acts as 10, and with both services down the chat request carries 10.
\<close>

theorem effective_limit_is_clamp_witness:
  "2 \<le> length (strip (str ''cat'')) \<and>
   get_search_suggestions
     (services (Raises (Exception (str ''timeout''))) (Raises (Exception (str ''no credits'')))
        Map.empty)
     (str ''cat'') 50 [] =
   get_search_suggestions
     (services (Raises (Exception (str ''timeout''))) (Raises (Exception (str ''no credits'')))
        Map.empty)
     (str ''cat'') 10 [] \<and>
   ChatCreate (str ''cat'') 10 \<in> set (snd (get_search_suggestions
     (services (Raises (Exception (str ''timeout''))) (Raises (Exception (str ''no credits'')))
        Map.empty)
     (str ''cat'') 50 []))"
proof -
  have h: "2 \<le> length (strip (str ''cat''))"
    by (simp add: str_def strip_def isspace_def)
  have ev: "ChatCreate (str ''cat'') 10 \<in> set (snd (get_search_suggestions
     (services (Raises (Exception (str ''timeout''))) (Raises (Exception (str ''no credits'')))
        Map.empty)
     (str ''cat'') 50 []))"
    by (simp add: run)
  have "get_search_suggestions
     (services (Raises (Exception (str ''timeout''))) (Raises (Exception (str ''no credits'')))
        Map.empty)
     (str ''cat'') 50 [] =
   get_search_suggestions
     (services (Raises (Exception (str ''timeout''))) (Raises (Exception (str ''no credits'')))
        Map.empty)
     (str ''cat'') (max 1 (min 50 10)) []"
    by (rule conjunct1[OF conjunct2[OF effective_limit_is_clamp[OF h]]])
  then show ?thesis using ev h by simp
qed

text \<open>
  C5. When the suggest service returns an array whose second element is an array \<open>d1\<close>,
  the suggest step returns the string elements of \<open>d1\<close>, in their order, cut to the effective
  limit; and when there is at least one, the route returns this list with the trimmed query.
\<close>

theorem suggest_step_keeps_strings:
  assumes "2 \<le> length (strip q)"
    and "suggest_get e (strip q) = Returns (JArr (d0 # JArr d1 # rest))"
  shows "fst (google_autocomplete e (strip q) (max 1 (min limit 10)) tr) =
           Inr (take (nat (max 1 (min limit 10))) (map un_JStr (filter is_JStr d1))) \<and>
         (filter is_JStr d1 \<noteq> [] \<longrightarrow>
            fst (get_search_suggestions e q limit tr) =
              Inr \<lparr>suggestions = take (nat (max 1 (min limit 10))) (map un_JStr (filter is_JStr d1)),
                   query = strip q\<rparr>)"
proof (intro conjI impI)
  let ?L = "max 1 (min limit 10)"
  let ?xs = "take (nat ?L) (map un_JStr (filter is_JStr d1))"
  have L: "0 \<le> ?L" by simp
  show g: "fst (google_autocomplete e (strip q) ?L tr) = Inr ?xs"
    using google_autocomplete_items[OF L assms(2)] .
  assume "filter is_JStr d1 \<noteq> []"
  then obtain s ss where ne: "?xs = s # ss"
    by (cases "filter is_JStr d1") (auto simp: take_Cons')
  have g0: "fst (google_autocomplete e (strip q) ?L []) = Inr (s # ss)"
    using google_autocomplete_items[OF L assms(2), of "[]"] ne by simp
  have res: "fst (get_search_suggestions e q limit tr) =
      Inr \<lparr>suggestions = slice_to (s # ss) ?L, query = strip q\<rparr>"
    by (simp add: resolver_steps[OF assms(1)] g0)
  have "slice_to ?xs ?L = ?xs"
    by (simp add: slice_to_nonneg)
  then have "slice_to (s # ss) ?L = ?xs"
    by (simp only: ne)
  with res show "fst (get_search_suggestions e q limit tr) =
      Inr \<lparr>suggestions = ?xs, query = strip q\<rparr>"
    by simp
qed

text \<open>
  The body \<open>["ignored", ["a","b","c"]]\<close> for the query \<open>cat\<close> and a limit of 2.
\<close>

theorem suggest_step_keeps_strings_witness:
  "fst (get_search_suggestions
          (services
             (Returns (JArr [JStr (str ''ignored''),
                             JArr [JStr (str ''a''), JStr (str ''b''), JStr (str ''c'')]]))
             (Raises (Exception (str ''not called''))) Map.empty)
          (str ''cat'') 2 []) =
     Inr \<lparr>suggestions = [str ''a'', str ''b''], query = str ''cat''\<rparr>"
proof -
  let ?e = "services
             (Returns (JArr [JStr (str ''ignored''),
                             JArr [JStr (str ''a''), JStr (str ''b''), JStr (str ''c'')]]))
             (Raises (Exception (str ''not called''))) Map.empty"
  have s: "strip (str ''cat'') = str ''cat''"
    by (simp add: str_def strip_def isspace_def)
  have h1: "2 \<le> length (strip (str ''cat''))"
    by (simp add: str_def strip_def isspace_def)
  have h2: "suggest_get ?e (strip (str ''cat'')) =
      Returns (JArr (JStr (str ''ignored'') #
                     JArr [JStr (str ''a''), JStr (str ''b''), JStr (str ''c'')] # []))"
    by (simp add: services_def)
  have h3: "filter is_JStr [JStr (str ''a''), JStr (str ''b''), JStr (str ''c'')] \<noteq> []"
    by simp
  have "fst (get_search_suggestions ?e (str ''cat'') 2 []) =
      Inr \<lparr>suggestions = take (nat (max 1 (min 2 10)))
              (map un_JStr (filter is_JStr [JStr (str ''a''), JStr (str ''b''), JStr (str ''c'')])),
           query = strip (str ''cat'')\<rparr>"
    using suggest_step_keeps_strings[OF h1 h2, of 2 "[]"] h3 by blast
  then show ?thesis
    by (simp add: s)
qed

text \<open>
  C6. The chat service returns a text that, trimmed, is \<open>pre [ mid ] post\<close> with \<open>pre\<close>
  non-empty and free of \<open>[\<close>, and \<open>post\<close> free of \<open>]\<close>: the text does not start with
  \<open>[\<close>, its first \<open>[\<close> is the one shown and its last \<open>]\<close> too. Then \<open>json.loads\<close> is applied
  to \<open>[ mid ]\<close>; if that is an array, the LLM step returns its string elements, in their
  order, cut to the effective limit, and so does the route when the suggest service raised
  (an \<open>Exception\<close>, which the handler catches).
\<close>

theorem llm_step_bracketed_substring:
  assumes "2 \<le> length (strip q)"
    and "chat_create e (strip q) (max 1 (min limit 10)) = Returns (Some text # cs)"
    and "strip text = pre @ 91 # mid @ 93 # post"
    and "pre \<noteq> []" and "91 \<notin> set pre" and "93 \<notin> set post"
    and "loads e (91 # mid @ [93]) = Some (JArr arr)"
  shows "fst (llm_suggestions e (strip q) (max 1 (min limit 10)) tr) =
           Inr (take (nat (max 1 (min limit 10))) (map un_JStr (filter is_JStr arr))) \<and>
         (suggest_get e (strip q) = Raises (Exception m) \<longrightarrow>
            fst (get_search_suggestions e q limit tr) =
              Inr \<lparr>suggestions = take (nat (max 1 (min limit 10))) (map un_JStr (filter is_JStr arr)),
                   query = strip q\<rparr>)"
proof (intro conjI impI)
  let ?L = "max 1 (min limit 10)"
  let ?xs = "take (nat ?L) (map un_JStr (filter is_JStr arr))"
  have L: "0 \<le> ?L" by simp
  have p: "parse_arr e (strip (case Some text of None \<Rightarrow> [] | Some s \<Rightarrow> s)) = Some (JArr arr)"
    using parse_arr_bracketed[OF assms(4,5,6), of e mid] assms(3,7) by simp
  show l: "fst (llm_suggestions e (strip q) ?L tr) = Inr ?xs"
    using llm_suggestions_parsed[OF L assms(2) p] .
  have l0: "fst (llm_suggestions e (strip q) ?L []) = Inr ?xs"
    using llm_suggestions_parsed[OF L assms(2) p] .
  assume "suggest_get e (strip q) = Raises (Exception m)"
  then have g0: "fst (google_autocomplete e (strip q) ?L []) = Inl (Exception m)"
    by (rule google_autocomplete_raises)
  have "slice_to ?xs ?L = ?xs"
    by (simp add: slice_to_nonneg)
  then show "fst (get_search_suggestions e q limit tr) = Inr \<lparr>suggestions = ?xs, query = strip q\<rparr>"
    by (simp add: resolver_steps[OF assms(1)] g0 l0)
qed

text \<open>
  The suggest service times out and the chat service returns \<open>Suggestions: ["x","y"]\<close>,
  for the query \<open>dog\<close> and a limit of 5; \<open>json.loads\<close> is given for the one text \<open>["x","y"]\<close>.
\<close>

theorem llm_step_bracketed_substring_witness:
  "fst (get_search_suggestions
          (services (Raises (Exception (str ''timeout'')))
             (Returns [Some (str ''Suggestions: [\"x\",\"y\"]'')])
             (map_of [(str ''[\"x\",\"y\"]'', JArr [JStr (str ''x''), JStr (str ''y'')])]))
          (str ''dog'') 5 []) =
     Inr \<lparr>suggestions = [str ''x'', str ''y''], query = str ''dog''\<rparr>"
proof -
  let ?e = "services (Raises (Exception (str ''timeout'')))
             (Returns [Some (str ''Suggestions: [\"x\",\"y\"]'')])
             (map_of [(str ''[\"x\",\"y\"]'', JArr [JStr (str ''x''), JStr (str ''y'')])])"
  have s: "strip (str ''dog'') = str ''dog''"
    by (simp add: str_def strip_def isspace_def)
  have h1: "2 \<le> length (strip (str ''dog''))"
    by (simp add: str_def strip_def isspace_def)
  have h2: "chat_create ?e (strip (str ''dog'')) (max 1 (min 5 10)) =
      Returns (Some (str ''Suggestions: [\"x\",\"y\"]'') # [])"
    by (simp add: services_def)
  have h3: "strip (str ''Suggestions: [\"x\",\"y\"]'') =
      str ''Suggestions: '' @ 91 # str ''\"x\",\"y\"'' @ 93 # []"
    by (simp add: str_def strip_def isspace_def)
  have h4: "str ''Suggestions: '' \<noteq> []" and h5: "91 \<notin> set (str ''Suggestions: '')"
    and h6: "93 \<notin> set ([]::pystr)"
    by (simp_all add: str_def)
  have h7: "loads ?e (91 # str ''\"x\",\"y\"'' @ [93]) = Some (JArr [JStr (str ''x''), JStr (str ''y'')])"
    by (simp add: services_def str_def)
  have h8: "suggest_get ?e (strip (str ''dog'')) = Raises (Exception (str ''timeout''))"
    by (simp add: services_def)
  have "fst (get_search_suggestions ?e (str ''dog'') 5 []) =
      Inr \<lparr>suggestions = take (nat (max 1 (min 5 10)))
              (map un_JStr (filter is_JStr [JStr (str ''x''), JStr (str ''y'')])),
           query = strip (str ''dog'')\<rparr>"
    using llm_step_bracketed_substring[OF h1 h2 h3 h4 h5 h6 h7, where tr = "[]" and m = "str ''timeout''"]
      h8
    by blast
  then show ?thesis
    by (simp add: s)
qed

text \<open>
  C7. For a query of trimmed length at least 2 (so that the services are called), if the
  suggest service raises and the LLM step raises (the call raises, or the response has no
  choice; exceptions of class \<open>Exception\<close>, as the errors of both clients are), the route
  returns the five patterns around the trimmed query, cut to the
  effective limit.
\<close>

theorem both_sources_raise_static_fallback:
  assumes "2 \<le> length (strip q)"
    and "suggest_get e (strip q) = Raises (Exception m1)"
    and "chat_create e (strip q) (max 1 (min limit 10)) = Raises (Exception m2) \<or>
         chat_create e (strip q) (max 1 (min limit 10)) = Returns []"
  shows "fst (get_search_suggestions e q limit tr) =
     Inr \<lparr>suggestions =
            take (nat (max 1 (min limit 10)))
              [strip q @ str '' tutorial'',
               strip q @ str '' example'',
               strip q @ str '' documentation'',
               str ''how to '' @ strip q,
               strip q @ str '' guide''],
          query = strip q\<rparr>"
proof -
  let ?L = "max 1 (min limit 10)"
  have g0: "fst (google_autocomplete e (strip q) ?L []) = Inl (Exception m1)"
    using assms(2) by (rule google_autocomplete_raises)
  obtain z where l0: "fst (llm_suggestions e (strip q) ?L []) = Inl (Exception z)"
    using llm_suggestions_raises[OF assms(3)] by blast
  have "slice_to (fallback (strip q)) ?L = take (nat ?L) (fallback (strip q))"
    by (simp add: slice_to_nonneg)
  then show ?thesis
    by (simp add: resolver_steps[OF assms(1)] g0 l0 fallback_def)
qed

text \<open>
  Both services down, the query \<open>fish\<close>, a limit of 3.
\<close>

theorem both_sources_raise_static_fallback_witness:
  "fst (get_search_suggestions
          (services (Raises (Exception (str ''timeout'')))
             (Raises (Exception (str ''no credits''))) Map.empty)
          (str ''fish'') 3 []) =
     Inr \<lparr>suggestions = [str ''fish tutorial'', str ''fish example'', str ''fish documentation''],
          query = str ''fish''\<rparr>"
proof -
  let ?e = "services (Raises (Exception (str ''timeout'')))
             (Raises (Exception (str ''no credits''))) Map.empty"
  have s: "strip (str ''fish'') = str ''fish''"
    by (simp add: str_def strip_def isspace_def)
  have h1: "2 \<le> length (strip (str ''fish''))"
    by (simp add: str_def strip_def isspace_def)
  have h2: "suggest_get ?e (strip (str ''fish'')) = Raises (Exception (str ''timeout''))"
    by (simp add: services_def)
  have h3: "chat_create ?e (strip (str ''fish'')) (max 1 (min 3 10)) =
              Raises (Exception (str ''no credits'')) \<or>
            chat_create ?e (strip (str ''fish'')) (max 1 (min 3 10)) = Returns []"
    by (simp add: services_def)
  show ?thesis
    using both_sources_raise_static_fallback[OF h1 h2 h3, of "[]", unfolded s] by (simp add: str_def)
qed

text \<open>
  C8. The list inside the LLM step and the list of the route are the same for every query
  and every limit. And the route answers the same when the chat service returns a text that
  \<open>json.loads\<close> rejects as when the chat service raises (an \<open>Exception\<close>), the suggest
  service behaving the same in both.
\<close>

theorem static_fallbacks_agree:
  "slice_to (last_resort q) limit = slice_to (fallback q) limit \<and>
   (chat_create e1 (strip q) (max 1 (min limit 10)) = Returns (c # cs) \<and>
    parse_arr e1 (strip (case c of None \<Rightarrow> [] | Some s \<Rightarrow> s)) = None \<and>
    chat_create e2 (strip q) (max 1 (min limit 10)) = Raises (Exception m) \<and>
    suggest_get e1 (strip q) = suggest_get e2 (strip q) \<longrightarrow>
      fst (get_search_suggestions e1 q limit tr1) = fst (get_search_suggestions e2 q limit tr2))"
proof (intro conjI impI; (elim conjE)?)
  show same: "slice_to (last_resort q) limit = slice_to (fallback q) limit" for q limit
    by (simp add: last_resort_def fallback_def)
  let ?L = "max 1 (min limit 10)"
  assume c1: "chat_create e1 (strip q) ?L = Returns (c # cs)"
    and p1: "parse_arr e1 (strip (case c of None \<Rightarrow> [] | Some s \<Rightarrow> s)) = None"
    and c2: "chat_create e2 (strip q) ?L = Raises (Exception m)"
    and g: "suggest_get e1 (strip q) = suggest_get e2 (strip q)"
  show "fst (get_search_suggestions e1 q limit tr1) = fst (get_search_suggestions e2 q limit tr2)"
  proof (cases "2 \<le> length (strip q)")
    case True
    have g12: "fst (google_autocomplete e1 (strip q) ?L []) =
               fst (google_autocomplete e2 (strip q) ?L [])"
      using g by (rule google_autocomplete_same_source)
    have l1: "fst (llm_suggestions e1 (strip q) ?L []) = Inr (slice_to (last_resort (strip q)) ?L)"
      using c1 p1 by (rule llm_suggestions_parse_failure)
    have l2: "fst (llm_suggestions e2 (strip q) ?L []) = Inl (Exception m)"
      using c2 by (simp add: llm_suggestions_def)
    have twice: "slice_to (slice_to (last_resort (strip q)) ?L) ?L = slice_to (fallback (strip q)) ?L"
      by (simp add: slice_to_idem same)
    show ?thesis
      by (simp add: resolver_steps[OF True] g12 l1 l2 twice split: sum.splits list.splits exn.splits)
  next
    case False
    then show ?thesis by (simp add: get_search_suggestions_def)
  qed
qed

text \<open>
  The chat service answers \<open>[oops\<close> in one environment and raises in the other.
\<close>

theorem static_fallbacks_agree_witness:
  "fst (get_search_suggestions
          (services (Raises (Exception (str ''timeout''))) (Returns [Some (str ''[oops'')])
             Map.empty)
          (str ''fish'') 3 []) =
   fst (get_search_suggestions
          (services (Raises (Exception (str ''timeout'')))
             (Raises (Exception (str ''no credits''))) Map.empty)
          (str ''fish'') 3 []) \<and>
   fst (get_search_suggestions
          (services (Raises (Exception (str ''timeout''))) (Returns [Some (str ''[oops'')])
             Map.empty)
          (str ''fish'') 3 []) =
     Inr \<lparr>suggestions = [str ''fish tutorial'', str ''fish example'', str ''fish documentation''],
          query = str ''fish''\<rparr>"
proof -
  let ?e1 = "services (Raises (Exception (str ''timeout''))) (Returns [Some (str ''[oops'')])
             Map.empty"
  let ?e2 = "services (Raises (Exception (str ''timeout'')))
             (Raises (Exception (str ''no credits''))) Map.empty"
  have h1: "chat_create ?e1 (strip (str ''fish'')) (max 1 (min 3 10)) =
      Returns (Some (str ''[oops'') # [])"
    by (simp add: services_def)
  have h2: "parse_arr ?e1 (strip (case Some (str ''[oops'') of None \<Rightarrow> [] | Some s \<Rightarrow> s)) = None"
    by (simp add: parse_arr_def services_def startswith_def str_def strip_def isspace_def)
  have h3: "chat_create ?e2 (strip (str ''fish'')) (max 1 (min 3 10)) =
      Raises (Exception (str ''no credits''))"
    by (simp add: services_def)
  have h4: "suggest_get ?e1 (strip (str ''fish'')) = suggest_get ?e2 (strip (str ''fish''))"
    by (simp add: services_def)
  have a: "fst (get_search_suggestions ?e1 (str ''fish'') 3 []) =
           fst (get_search_suggestions ?e2 (str ''fish'') 3 [])"
    using static_fallbacks_agree[where q = "str ''fish''" and limit = 3 and ?e1.0 = ?e1
             and c = "Some (str ''[oops'')" and cs = "[]" and ?e2.0 = ?e2
             and m = "str ''no credits''" and ?tr1.0 = "[]" and ?tr2.0 = "[]"] h1 h2 h3 h4
    by blast
  have b: "fst (get_search_suggestions ?e1 (str ''fish'') 3 []) =
     Inr \<lparr>suggestions = [str ''fish tutorial'', str ''fish example'', str ''fish documentation''],
          query = str ''fish''\<rparr>"
    by (simp add: run)
  from a b show ?thesis by (simp only: simp_thms)
qed

text \<open>
  C10. For a query of trimmed length at least 2, if the suggest step returns no suggestion
  without raising, the chat service returns a response, and its content parses to an array
  with no string element, the route returns the empty list. The trace has the two requests
  and no log record: neither step raised. The empty list is not what either static list
  gives at the effective limit.
\<close>

theorem llm_array_without_strings_gives_empty:
  assumes "2 \<le> length (strip q)"
    and "fst (google_autocomplete e (strip q) (max 1 (min limit 10)) tr) = Inr []"
    and "chat_create e (strip q) (max 1 (min limit 10)) = Returns (c # cs)"
    and "parse_arr e (strip (case c of None \<Rightarrow> [] | Some s \<Rightarrow> s)) = Some (JArr arr)"
    and "filter is_JStr arr = []"
  shows "get_search_suggestions e q limit tr =
           (Inr \<lparr>suggestions = [], query = strip q\<rparr>,
            tr @ [HttpGet (strip q), ChatCreate (strip q) (max 1 (min limit 10))]) \<and>
         slice_to (last_resort (strip q)) (max 1 (min limit 10)) \<noteq> [] \<and>
         slice_to (fallback (strip q)) (max 1 (min limit 10)) \<noteq> []"
proof (intro conjI)
  let ?L = "max 1 (min limit 10)"
  have L: "0 \<le> ?L" by simp
  have g0: "fst (google_autocomplete e (strip q) ?L []) = Inr []"
    using assms(2) google_autocomplete_result[of e "strip q" ?L tr] by simp
  have l0: "fst (llm_suggestions e (strip q) ?L []) = Inr []"
    using llm_suggestions_parsed[OF L assms(3,4), of "[]"] assms(5) by simp
  show "get_search_suggestions e q limit tr =
           (Inr \<lparr>suggestions = [], query = strip q\<rparr>,
            tr @ [HttpGet (strip q), ChatCreate (strip q) ?L])"
    by (simp add: resolver_steps[OF assms(1)] g0 l0 slice_to_def)
  show "slice_to (last_resort (strip q)) ?L \<noteq> []"
    by (simp add: slice_to_nonneg last_resort_def)
  show "slice_to (fallback (strip q)) ?L \<noteq> []"
    by (simp add: slice_to_nonneg fallback_def)
qed

text \<open>
  The suggest service returns \<open>["cats", []]\<close> and the chat service \<open>[1, 2]\<close>.
\<close>

theorem llm_array_without_strings_gives_empty_witness:
  "get_search_suggestions
     (services (Returns (JArr [JStr (str ''cats''), JArr []]))
        (Returns [Some (str ''[1, 2]'')])
        (map_of [(str ''[1, 2]'', JArr [JInt 1, JInt 2])]))
     (str ''cats'') 5 [] =
   (Inr \<lparr>suggestions = [], query = str ''cats''\<rparr>,
    [HttpGet (str ''cats''), ChatCreate (str ''cats'') 5])"
proof -
  let ?e = "services (Returns (JArr [JStr (str ''cats''), JArr []]))
        (Returns [Some (str ''[1, 2]'')])
        (map_of [(str ''[1, 2]'', JArr [JInt 1, JInt 2])])"
  have s: "strip (str ''cats'') = str ''cats''"
    by (simp add: str_def strip_def isspace_def)
  have h1: "2 \<le> length (strip (str ''cats''))"
    by (simp add: str_def strip_def isspace_def)
  have h2: "fst (google_autocomplete ?e (strip (str ''cats'')) (max 1 (min 5 10)) []) = Inr []"
    by (simp add: google_autocomplete_def services_def slice_to_def)
  have h3: "chat_create ?e (strip (str ''cats'')) (max 1 (min 5 10)) =
      Returns (Some (str ''[1, 2]'') # [])"
    by (simp add: services_def)
  have h4: "parse_arr ?e (strip (case Some (str ''[1, 2]'') of None \<Rightarrow> [] | Some s \<Rightarrow> s)) =
      Some (JArr [JInt 1, JInt 2])"
    by (simp add: parse_arr_def services_def startswith_def str_def strip_def isspace_def)
  have h5: "filter is_JStr [JInt 1, JInt 2] = []"
    by simp
  have "get_search_suggestions ?e (str ''cats'') 5 [] =
      (Inr \<lparr>suggestions = [], query = strip (str ''cats'')\<rparr>,
       [] @ [HttpGet (strip (str ''cats'')), ChatCreate (strip (str ''cats'')) (max 1 (min 5 10))])"
    using llm_array_without_strings_gives_empty[OF h1 h2 h3 h4 h5] by (rule conjunct1)
  then show ?thesis
    by (simp add: s)
qed

end
